theory Spec2Isabelle
  imports Main
begin

section \<open>The farming game backend (index.js)\<close>

text \<open>
  A shallow embedding of the Express server in \<^verbatim>\<open>src/index.js\<close>: the game
  configuration, the plots of the global \<^verbatim>\<open>gameBoard\<close>, the node-persist item
  \<^verbatim>\<open>'gameBoard'\<close>, the pending timeouts of the event loop, and the handlers.

  Conventions of the embedding:
  \<^item> JavaScript's \<^verbatim>\<open>null\<close>, \<^verbatim>\<open>undefined\<close> and an absent property are
    \<open>None\<close>; the only places that tell them apart (strict comparison with
    \<^verbatim>\<open>undefined\<close> in the validation) are applied to request fields, for which
    \<open>None\<close> means absent.
  \<^item> \<^verbatim>\<open>row\<close> and \<^verbatim>\<open>col\<close> of a request body are integers or absent, as
    the interface documents them; timestamps are integers (epoch milliseconds).
  \<^item> \<^verbatim>\<open>Date.now()\<close> is a parameter: \<open>now\<close> for a handler that reads the clock once,
    and for the start-up loop, which reads it at every watered plot, a function
    \<open>clock\<close> with \<open>clock r c\<close> the reading at the plot \<open>(r, c)\<close>.
  \<^item> A handler, and a timeout callback, runs to completion before the next one starts
    (each \<^verbatim>\<open>await\<close> is followed to its end); console output is not recorded.
  \<^item> A \<^verbatim>\<open>TypeError\<close> thrown by reading a property of \<^verbatim>\<open>undefined\<close> is the
    result \<open>Inl TypeError\<close>.
\<close>

subsection \<open>Game configuration\<close>

definition ROWS :: int where
  "ROWS = 4"

definition COLS :: int where
  "COLS = 5"

definition GROWTH_TIME_MS :: int where
  "GROWTH_TIME_MS = 5000"

subsection \<open>Data\<close>

text \<open>A plot object of \<^verbatim>\<open>gameBoard\<close>; \<open>growthTimeout\<close> holds the handle of a timeout.\<close>

record plot =
  state :: string
  lastWateredTime :: "int option"
  growthTimeout :: "nat option"

text \<open>A plot as JSON text carries it: the object without a \<^verbatim>\<open>growthTimeout\<close> property.\<close>

record json_plot =
  json_state :: string
  json_lastWateredTime :: "int option"

type_synonym document = "json_plot list list"

text \<open>The two closures handed to \<^verbatim>\<open>setTimeout\<close>, each with the coordinates it captures.\<close>

datatype callback =
    WateredGrowth int int
  | ReestablishedGrowth int int

record timer =
  delay :: int
  callback :: callback

datatype error = TypeError

datatype response =
    Result nat bool string
  | BoardJson document

datatype event =
    SetTimeout nat int callback
  | ClearTimeout nat
  | SetItem document
  | Respond response

text \<open>
  The process state: the global board, the stored item \<^verbatim>\<open>'gameBoard'\<close>, the timeouts
  that are armed and have neither fired nor been cleared, the next fresh handle, and the
  effects performed so far in order.
\<close>

record world =
  gameBoard :: "plot list list"
  stored :: "document option"
  timers :: "(nat \<times> timer) list"
  nextHandle :: nat
  effects :: "event list"

definition process_start :: "document option \<Rightarrow> world" where
  "process_start disk =
     \<lparr>gameBoard = [], stored = disk, timers = [], nextHandle = 0, effects = []\<rparr>"

subsection \<open>Runtime services\<close>

definition setTimeout :: "callback \<Rightarrow> int \<Rightarrow> world \<Rightarrow> nat \<times> world" where
  "setTimeout cb ms w =
     (let h = nextHandle w
      in (h, w\<lparr>timers := timers w @ [(h, \<lparr>delay = ms, callback = cb\<rparr>)],
                nextHandle := Suc h,
                effects := effects w @ [SetTimeout h ms cb]\<rparr>))"

definition unschedule :: "nat \<Rightarrow> (nat \<times> timer) list \<Rightarrow> (nat \<times> timer) list" where
  "unschedule h ts = filter (\<lambda>kt. fst kt \<noteq> h) ts"

definition clearTimeout :: "nat \<Rightarrow> world \<Rightarrow> world" where
  "clearTimeout h w =
     w\<lparr>timers := unschedule h (timers w), effects := effects w @ [ClearTimeout h]\<rparr>"

definition respond :: "response \<Rightarrow> world \<Rightarrow> (error + response) \<times> world" where
  "respond r w = (Inr r, w\<lparr>effects := effects w @ [Respond r]\<rparr>)"

text \<open>JavaScript's truthiness of a number or \<^verbatim>\<open>null\<close>.\<close>

fun truthy :: "int option \<Rightarrow> bool" where
  "truthy None = False"
| "truthy (Some t) = (t \<noteq> 0)"

text \<open>A template literal renders an integer in decimal.\<close>

definition digit_char :: "nat \<Rightarrow> char" where
  "digit_char d = ''0123456789'' ! d"

fun show_nat :: "nat \<Rightarrow> string" where
  "show_nat n = (if n < 10 then [digit_char n] else show_nat (n div 10) @ [digit_char (n mod 10)])"

declare show_nat.simps [simp del]

definition show_int :: "int \<Rightarrow> string" where
  "show_int i = (if i < 0 then CHR ''-'' # show_nat (nat (- i)) else show_nat (nat i))"

subsection \<open>Board access\<close>

text \<open>
  \<^verbatim>\<open>gameBoard[row][col]\<close>: \<open>None\<close> where JavaScript yields \<^verbatim>\<open>undefined\<close> or throws
  on the way; every use below reads a property of the result next, which throws then.
\<close>

definition plot_at :: "plot list list \<Rightarrow> int \<Rightarrow> int \<Rightarrow> plot option" where
  "plot_at b row col =
     (if 0 \<le> row \<and> nat row < length b
      then (if 0 \<le> col \<and> nat col < length (b ! nat row)
            then Some (b ! nat row ! nat col) else None)
      else None)"

text \<open>Assignments to the fields of the object \<^verbatim>\<open>gameBoard[row][col]\<close>.\<close>

definition set_plot :: "int \<Rightarrow> int \<Rightarrow> plot \<Rightarrow> plot list list \<Rightarrow> plot list list" where
  "set_plot row col p b = b[nat row := (b ! nat row)[nat col := p]]"

definition write_plot :: "int \<Rightarrow> int \<Rightarrow> plot \<Rightarrow> world \<Rightarrow> world" where
  "write_plot row col p w = w\<lparr>gameBoard := set_plot row col p (gameBoard w)\<rparr>"

subsection \<open>Persistence\<close>

definition strip :: "plot \<Rightarrow> json_plot" where
  "strip p = \<lparr>json_state = state p, json_lastWateredTime = lastWateredTime p\<rparr>"

definition parsed :: "json_plot \<Rightarrow> plot" where
  "parsed j = \<lparr>state = json_state j, lastWateredTime = json_lastWateredTime j,
               growthTimeout = None\<rparr>"

definition saveGameBoard :: "world \<Rightarrow> world" where
  "saveGameBoard w =
     (let serializableGameBoard = map (map strip) (gameBoard w)
      in w\<lparr>stored := Some serializableGameBoard,
            effects := effects w @ [SetItem serializableGameBoard]\<rparr>)"

subsection \<open>Start-up\<close>

definition new_plot :: plot where
  "new_plot = \<lparr>state = ''empty'', lastWateredTime = None, growthTimeout = None\<rparr>"

definition initializeNewGameBoard :: "world \<Rightarrow> world" where
  "initializeNewGameBoard w =
     saveGameBoard
       (w\<lparr>gameBoard := map (\<lambda>r. map (\<lambda>c. new_plot) [0..<nat COLS]) [0..<nat ROWS]\<rparr>)"

text \<open>The body of the inner \<^verbatim>\<open>forEach\<close>, for the plot at \<open>(r, c)\<close>.\<close>

definition rehydrate_plot :: "int \<Rightarrow> int \<Rightarrow> int \<Rightarrow> plot \<Rightarrow> world \<Rightarrow> plot \<times> world" where
  "rehydrate_plot now r c p w =
     (if state p = ''watered'' \<and> truthy (lastWateredTime p) then
        (let timeElapsed = now - the (lastWateredTime p);
             remainingGrowthTime = GROWTH_TIME_MS - timeElapsed
         in if remainingGrowthTime > 0 then
              (let (h, w') = setTimeout (ReestablishedGrowth r c) remainingGrowthTime w
               in (p\<lparr>growthTimeout := Some h\<rparr>, w'))
            else (p\<lparr>state := ''ready''\<rparr>, w))
      else (p, w))"

text \<open>The two nested \<^verbatim>\<open>forEach\<close> loops, with the indices they pass along.\<close>

fun rehydrate_row ::
  "(int \<Rightarrow> int \<Rightarrow> int) \<Rightarrow> int \<Rightarrow> int \<Rightarrow> plot list \<Rightarrow> world \<Rightarrow> plot list \<times> world" where
  "rehydrate_row clock r c [] w = ([], w)"
| "rehydrate_row clock r c (p # ps) w =
     (let (p', w1) = rehydrate_plot (clock r c) r c p w;
          (ps', w2) = rehydrate_row clock r (c + 1) ps w1
      in (p' # ps', w2))"

fun rehydrate_rows ::
  "(int \<Rightarrow> int \<Rightarrow> int) \<Rightarrow> int \<Rightarrow> plot list list \<Rightarrow> world \<Rightarrow> plot list list \<times> world" where
  "rehydrate_rows clock r [] w = ([], w)"
| "rehydrate_rows clock r (row # rows) w =
     (let (row', w1) = rehydrate_row clock r 0 row w;
          (rows', w2) = rehydrate_rows clock (r + 1) rows w1
      in (row' # rows', w2))"

definition initStorageAndLoadGameState :: "(int \<Rightarrow> int \<Rightarrow> int) \<Rightarrow> world \<Rightarrow> world" where
  "initStorageAndLoadGameState clock w =
     (case stored w of
        Some storedGameBoard \<Rightarrow>
          (let loaded = map (map parsed) storedGameBoard;
               (b, w') = rehydrate_rows clock 0 loaded (w\<lparr>gameBoard := loaded\<rparr>)
           in w'\<lparr>gameBoard := b\<rparr>)
      | None \<Rightarrow> initializeNewGameBoard w)"

subsection \<open>Timeout callbacks\<close>

fun run_callback :: "callback \<Rightarrow> world \<Rightarrow> (error + unit) \<times> world" where
  "run_callback (WateredGrowth row col) w =
     (case plot_at (gameBoard w) row col of
        None \<Rightarrow> (Inl TypeError, w)
      | Some p \<Rightarrow>
          if state p = ''watered'' then
            (Inr (), saveGameBoard
                       (write_plot row col (p\<lparr>state := ''ready'', growthTimeout := None\<rparr>) w))
          else (Inr (), w))"
| "run_callback (ReestablishedGrowth r c) w =
     (case plot_at (gameBoard w) r c of
        None \<Rightarrow> (Inl TypeError, w)
      | Some p \<Rightarrow>
          if state p = ''watered'' then
            (Inr (), saveGameBoard (write_plot r c (p\<lparr>state := ''ready''\<rparr>) w))
          else (Inr (), w))"

text \<open>
  The event loop fires the pending timeout with handle \<open>h\<close>: it leaves the pending set
  and its callback runs. A handle that is not pending fires nothing. When a timeout
  fires is up to the event loop and is not part of the embedding: the delay is recorded
  with the timeout, and a run may fire a pending timeout at any point.
\<close>

definition fire :: "nat \<Rightarrow> world \<Rightarrow> (error + unit) \<times> world" where
  "fire h w =
     (case map_of (timers w) h of
        None \<Rightarrow> (Inr (), w)
      | Some t \<Rightarrow> run_callback (callback t) (w\<lparr>timers := unschedule h (timers w)\<rparr>))"

subsection \<open>API endpoints\<close>

fun invalid_coordinates :: "int option \<Rightarrow> int option \<Rightarrow> bool" where
  "invalid_coordinates (Some row) (Some col) =
     (row < 0 \<or> row \<ge> ROWS \<or> col < 0 \<or> col \<ge> COLS)"
| "invalid_coordinates _ _ = True"

definition invalid_response :: response where
  "invalid_response = Result 400 False ''Invalid plot coordinates.''"

text \<open>The object literal \<^verbatim>\<open>{ ...plot, growthTimeout: undefined }\<close>.\<close>

definition without_handle :: "plot \<Rightarrow> plot" where
  "without_handle p = p\<lparr>growthTimeout := None\<rparr>"

definition game_state :: "world \<Rightarrow> (error + response) \<times> world" where
  "game_state w =
     (let responseBoard = map (map without_handle) (gameBoard w)
      in respond (BoardJson (map (map strip) responseBoard)) w)"

definition at_coordinates :: "int \<Rightarrow> int \<Rightarrow> string" where
  "at_coordinates row col = ''('' @ show_int row @ '', '' @ show_int col @ '')''"

definition plant :: "int option \<Rightarrow> int option \<Rightarrow> world \<Rightarrow> (error + response) \<times> world" where
  "plant row col w =
     (if invalid_coordinates row col then respond invalid_response w
      else
        (let r = the row; c = the col
         in case plot_at (gameBoard w) r c of
              None \<Rightarrow> (Inl TypeError, w)
            | Some p \<Rightarrow>
                if state p = ''empty'' then
                  (let p1 = p\<lparr>state := ''planted'', lastWateredTime := None\<rparr>;
                       (p2, w1) = (case growthTimeout p1 of
                                     Some h \<Rightarrow> (p1\<lparr>growthTimeout := None\<rparr>, clearTimeout h w)
                                   | None \<Rightarrow> (p1, w))
                   in respond (Result 200 True (''Seed planted at '' @ at_coordinates r c @ ''.''))
                        (saveGameBoard (write_plot r c p2 w1)))
                else respond (Result 400 False ''Plot is not empty.'') w))"

definition water :: "int \<Rightarrow> int option \<Rightarrow> int option \<Rightarrow> world \<Rightarrow> (error + response) \<times> world" where
  "water now row col w =
     (if invalid_coordinates row col then respond invalid_response w
      else
        (let r = the row; c = the col
         in case plot_at (gameBoard w) r c of
              None \<Rightarrow> (Inl TypeError, w)
            | Some p \<Rightarrow>
                if state p = ''planted'' then
                  (let p1 = p\<lparr>state := ''watered'', lastWateredTime := Some now\<rparr>;
                       w1 = (case growthTimeout p1 of
                               Some h \<Rightarrow> clearTimeout h w
                             | None \<Rightarrow> w);
                       (h, w2) = setTimeout (WateredGrowth r c) GROWTH_TIME_MS w1;
                       p2 = p1\<lparr>growthTimeout := Some h\<rparr>
                   in respond
                        (Result 200 True
                           (''Plant at '' @ at_coordinates r c @ '' watered. It will be ready in ''
                              @ show_int (GROWTH_TIME_MS div 1000) @ '' seconds.''))
                        (saveGameBoard (write_plot r c p2 w2)))
                else if state p = ''watered'' \<or> state p = ''ready'' then
                  respond (Result 400 False ''Plant is already watered or ready.'') w
                else
                  respond (Result 400 False ''Nothing to water here. Plant a seed first!'') w))"

definition harvest :: "int option \<Rightarrow> int option \<Rightarrow> world \<Rightarrow> (error + response) \<times> world" where
  "harvest row col w =
     (if invalid_coordinates row col then respond invalid_response w
      else
        (let r = the row; c = the col
         in case plot_at (gameBoard w) r c of
              None \<Rightarrow> (Inl TypeError, w)
            | Some p \<Rightarrow>
                if state p = ''ready'' then
                  (let p1 = p\<lparr>state := ''empty'', lastWateredTime := None\<rparr>;
                       (p2, w1) = (case growthTimeout p1 of
                                     Some h \<Rightarrow> (p1\<lparr>growthTimeout := None\<rparr>, clearTimeout h w)
                                   | None \<Rightarrow> (p1, w))
                   in respond (Result 200 True (''Plant at '' @ at_coordinates r c @ '' harvested.''))
                        (saveGameBoard (write_plot r c p2 w1)))
                else if state p = ''empty'' then
                  respond (Result 400 False ''Nothing to harvest here. Plot is empty!'') w
                else
                  respond (Result 400 False ''Plant is not ready to harvest yet.'') w))"

subsection \<open>The board query on a store of objects\<close>

text \<open>
  The handlers above treat the board as a value. The query builds new arrays and new
  objects, and whether those share anything with the live board is a matter of
  references, so its expression
  \<^verbatim>\<open>gameBoard.map(row => row.map(plot => ({ ...plot, growthTimeout: undefined })))\<close>
  is also run on a store: a list of objects addressed by position, where an array holds
  the references of its elements and an allocation appends. \<open>board_at\<close> reads the board
  whose outer array is at a reference; \<open>None\<close> stands for a store that holds no board
  there (a call of \<^verbatim>\<open>map\<close> on something that is no array throws).
\<close>

type_synonym ref = nat

datatype object = PlotObject plot | ArrayObject "ref list"

type_synonym heap = "object list"

definition allocate :: "object \<Rightarrow> heap \<Rightarrow> ref \<times> heap" where
  "allocate x h = (length h, h @ [x])"

definition deref :: "heap \<Rightarrow> ref \<Rightarrow> object option" where
  "deref h a = (if a < length h then Some (h ! a) else None)"

fun read_plots :: "heap \<Rightarrow> ref list \<Rightarrow> plot list option" where
  "read_plots h [] = Some []"
| "read_plots h (a # as) =
     (case deref h a of
        Some (PlotObject p) \<Rightarrow> map_option ((#) p) (read_plots h as)
      | _ \<Rightarrow> None)"

fun read_rows :: "heap \<Rightarrow> ref list \<Rightarrow> plot list list option" where
  "read_rows h [] = Some []"
| "read_rows h (a # as) =
     (case deref h a of
        Some (ArrayObject cells) \<Rightarrow>
          (case read_plots h cells of
             Some row \<Rightarrow> map_option ((#) row) (read_rows h as)
           | None \<Rightarrow> None)
      | _ \<Rightarrow> None)"

definition board_at :: "heap \<Rightarrow> ref \<Rightarrow> plot list list option" where
  "board_at h root =
     (case deref h root of
        Some (ArrayObject rows) \<Rightarrow> read_rows h rows
      | _ \<Rightarrow> None)"

fun map_plots :: "ref list \<Rightarrow> heap \<Rightarrow> (ref list \<times> heap) option" where
  "map_plots [] h = Some ([], h)"
| "map_plots (a # as) h =
     (case deref h a of
        Some (PlotObject p) \<Rightarrow>
          (let (a', h1) = allocate (PlotObject (without_handle p)) h
           in case map_plots as h1 of
                Some (as', h2) \<Rightarrow> Some (a' # as', h2)
              | None \<Rightarrow> None)
      | _ \<Rightarrow> None)"

fun map_rows :: "ref list \<Rightarrow> heap \<Rightarrow> (ref list \<times> heap) option" where
  "map_rows [] h = Some ([], h)"
| "map_rows (a # as) h =
     (case deref h a of
        Some (ArrayObject cells) \<Rightarrow>
          (case map_plots cells h of
             Some (cells', h1) \<Rightarrow>
               (let (a', h2) = allocate (ArrayObject cells') h1
                in case map_rows as h2 of
                     Some (as', h3) \<Rightarrow> Some (a' # as', h3)
                   | None \<Rightarrow> None)
           | None \<Rightarrow> None)
      | _ \<Rightarrow> None)"

definition responseBoard :: "ref \<Rightarrow> heap \<Rightarrow> (ref \<times> heap) option" where
  "responseBoard root h =
     (case deref h root of
        Some (ArrayObject rows) \<Rightarrow>
          (case map_rows rows h of
             Some (rows', h1) \<Rightarrow> Some (allocate (ArrayObject rows') h1)
           | None \<Rightarrow> None)
      | _ \<Rightarrow> None)"

subsection \<open>Runs of the server\<close>

text \<open>
  What can happen after start-up: a request to one of the endpoints, or the event loop
  firing a timeout. \<open>Water\<close> carries the clock reading of its handler.
\<close>

datatype action =
    Plant "int option" "int option"
  | Water int "int option" "int option"
  | Harvest "int option" "int option"
  | Fire nat
  | GameState

fun step :: "action \<Rightarrow> world \<Rightarrow> world" where
  "step (Plant row col) w = snd (plant row col w)"
| "step (Water now row col) w = snd (water now row col w)"
| "step (Harvest row col) w = snd (harvest row col w)"
| "step (Fire h) w = snd (fire h w)"
| "step GameState w = snd (game_state w)"

fun run :: "action list \<Rightarrow> world \<Rightarrow> world" where
  "run [] w = w"
| "run (a # as) w = run as (step a w)"

section \<open>Notions used in the statements\<close>

text \<open>The plot a timeout callback acts on.\<close>

fun target :: "callback \<Rightarrow> int \<times> int" where
  "target (WateredGrowth row col) = (row, col)"
| "target (ReestablishedGrowth r c) = (r, c)"

definition timers_for :: "int \<Rightarrow> int \<Rightarrow> (nat \<times> timer) list \<Rightarrow> (nat \<times> timer) list" where
  "timers_for r c ts = filter (\<lambda>kt. target (callback (snd kt)) = (r, c)) ts"

text \<open>A loaded plot that is watered with a usable timestamp, by the time elapsed since.\<close>

definition growing :: "int \<Rightarrow> plot \<Rightarrow> bool" where
  "growing now p =
     (state p = ''watered'' \<and> truthy (lastWateredTime p)
        \<and> now - the (lastWateredTime p) < GROWTH_TIME_MS)"

definition overdue :: "int \<Rightarrow> plot \<Rightarrow> bool" where
  "overdue now p =
     (state p = ''watered'' \<and> truthy (lastWateredTime p)
        \<and> now - the (lastWateredTime p) \<ge> GROWTH_TIME_MS)"


text \<open>
  A rejection: status 400 with the message, and a world that differs from the one before
  in the response sent and in nothing else.
\<close>

definition rejected :: "string \<Rightarrow> world \<Rightarrow> (error + response) \<times> world \<Rightarrow> bool" where
  "rejected msg w out =
     (out = (Inr (Result 400 False msg),
             w\<lparr>effects := effects w @ [Respond (Result 400 False msg)]\<rparr>))"

text \<open>
  The change a step makes to the plot at \<open>(r, c)\<close>, when it makes one: the plot before,
  the plot after.
\<close>

fun moved :: "action \<Rightarrow> world \<Rightarrow> int \<Rightarrow> int \<Rightarrow> plot \<Rightarrow> plot \<Rightarrow> bool" where
  "moved (Plant row col) w r c p p' =
     (row = Some r \<and> col = Some c \<and> state p = ''empty''
        \<and> p' = \<lparr>state = ''planted'', lastWateredTime = None, growthTimeout = None\<rparr>)"
| "moved (Water now row col) w r c p p' =
     (row = Some r \<and> col = Some c \<and> state p = ''planted''
        \<and> p' = \<lparr>state = ''watered'', lastWateredTime = Some now,
                 growthTimeout = Some (nextHandle w)\<rparr>)"
| "moved (Harvest row col) w r c p p' =
     (row = Some r \<and> col = Some c \<and> state p = ''ready''
        \<and> p' = \<lparr>state = ''empty'', lastWateredTime = None, growthTimeout = None\<rparr>)"
| "moved (Fire h) w r c p p' =
     (state p = ''watered'' \<and>
      (case map_of (timers w) h of
         None \<Rightarrow> False
       | Some t \<Rightarrow> target (callback t) = (r, c) \<and>
           p' = (case callback t of
                   WateredGrowth _ _ \<Rightarrow> p\<lparr>state := ''ready'', growthTimeout := None\<rparr>
                 | ReestablishedGrowth _ _ \<Rightarrow> p\<lparr>state := ''ready''\<rparr>)))"
| "moved GameState w r c p p' = False"

text \<open>The four states, and the edge of the lifecycle that belongs to each kind of step.\<close>

definition plot_states :: "string set" where
  "plot_states = {''empty'', ''planted'', ''watered'', ''ready''}"

fun edge :: "action \<Rightarrow> string \<Rightarrow> string \<Rightarrow> bool" where
  "edge (Plant row col) s s' = (s = ''empty'' \<and> s' = ''planted'')"
| "edge (Water now row col) s s' = (s = ''planted'' \<and> s' = ''watered'')"
| "edge (Harvest row col) s s' = (s = ''ready'' \<and> s' = ''empty'')"
| "edge (Fire h) s s' = (s = ''watered'' \<and> s' = ''ready'')"
| "edge GameState s s' = False"

definition in_plot_states :: "plot \<Rightarrow> bool" where
  "in_plot_states p = (state p \<in> plot_states)"

text \<open>A property of every plot of a board; a board of \<open>ROWS\<close> rows of \<open>COLS\<close> plots.\<close>

definition all_plots :: "(plot \<Rightarrow> bool) \<Rightarrow> plot list list \<Rightarrow> bool" where
  "all_plots P b = list_all (list_all P) b"

definition grid :: "plot list list \<Rightarrow> bool" where
  "grid b = (length b = nat ROWS \<and> list_all (\<lambda>row. length row = nat COLS) b)"

text \<open>A stored board of \<open>ROWS\<close> rows of \<open>COLS\<close> plots in the four states.\<close>

definition stored_grid :: "document \<Rightarrow> bool" where
  "stored_grid doc =
     (length doc = nat ROWS
        \<and> list_all (\<lambda>row. length row = nat COLS \<and> list_all (\<lambda>j. json_state j \<in> plot_states) row) doc)"






text \<open>A watered plot for which no timeout is pending.\<close>

definition stuck :: "int \<Rightarrow> int \<Rightarrow> world \<Rightarrow> bool" where
  "stuck r c w =
     (map_option state (plot_at (gameBoard w) r c) = Some ''watered''
        \<and> timers_for r c (timers w) = [])"


text \<open>Worlds and documents for the concrete instances.\<close>

definition new_game :: world where
  "new_game = initStorageAndLoadGameState (\<lambda>r c. 0) (process_start None)"

definition stored_watered :: document where
  "stored_watered = [[\<lparr>json_state = ''watered'', json_lastWateredTime = Some 1000\<rparr>,
                      \<lparr>json_state = ''ready'', json_lastWateredTime = Some 500\<rparr>]]"


definition watered_game :: world where
  "watered_game = run [Plant (Some 0) (Some 0), Water 1000 (Some 0) (Some 0)] new_game"

text \<open>
  A world that no run reaches, for the guard of the callbacks: the timeout of
  \<open>watered_game\<close> pending over a board whose plots are all empty.
\<close>

definition stale_timer_game :: world where
  "stale_timer_game = watered_game\<lparr>gameBoard := gameBoard new_game\<rparr>"



text \<open>A stored board whose first plot is watered and has no timestamp.\<close>

definition stored_stuck :: document where
  "stored_stuck = [[\<lparr>json_state = ''watered'', json_lastWateredTime = None\<rparr>,
                    \<lparr>json_state = ''planted'', json_lastWateredTime = None\<rparr>]]"

text \<open>
  The references an array of arrays takes up: its own, its rows', its cells'. One store
  agrees with another when it extends it, leaving the objects it had as they were.
\<close>

definition cells_of :: "heap \<Rightarrow> ref \<Rightarrow> ref list" where
  "cells_of h a = (case deref h a of Some (ArrayObject cells) \<Rightarrow> cells | _ \<Rightarrow> [])"

definition objects_of :: "heap \<Rightarrow> ref \<Rightarrow> ref list" where
  "objects_of h root = root # cells_of h root @ concat (map (cells_of h) (cells_of h root))"

definition agrees :: "heap \<Rightarrow> heap \<Rightarrow> bool" where
  "agrees h h' = (take (length h) h' = h)"

text \<open>A store holding a board of one row, at reference 3, and a world with that board.\<close>

definition example_heap :: heap where
  "example_heap =
     [PlotObject \<lparr>state = ''watered'', lastWateredTime = Some 1000, growthTimeout = Some 0\<rparr>,
      PlotObject \<lparr>state = ''empty'', lastWateredTime = None, growthTimeout = None\<rparr>,
      ArrayObject [0, 1],
      ArrayObject [2]]"

definition example_world :: world where
  "example_world =
     \<lparr>gameBoard = [[\<lparr>state = ''watered'', lastWateredTime = Some 1000, growthTimeout = Some 0\<rparr>,
                    \<lparr>state = ''empty'', lastWateredTime = None, growthTimeout = None\<rparr>]],
      stored = None,
      timers = [(0, \<lparr>delay = 5000, callback = WateredGrowth 0 0\<rparr>)],
      nextHandle = 1,
      effects = []\<rparr>"

section \<open>Verified properties\<close>

subsection \<open>Auxiliary facts\<close>



lemma plot_at_set_plot_same:
  "plot_at b r c = Some q \<Longrightarrow> plot_at (set_plot r c p b) r c = Some p"
  by (auto simp add: plot_at_def set_plot_def split: if_splits)

lemma plot_at_set_plot_other:
  "plot_at b r c = Some q \<Longrightarrow> (r', c') \<noteq> (r, c) \<Longrightarrow>
     plot_at (set_plot r c p b) r' c' = plot_at b r' c'"
  by (auto simp add: plot_at_def set_plot_def nth_list_update split: if_splits)

lemma timers_for_append [simp]:
  "timers_for r c (xs @ ys) = timers_for r c xs @ timers_for r c ys"
  by (simp add: timers_for_def)

subsection \<open>Rehydration of a loaded board\<close>

lemma rehydrate_plot_cases:
  assumes "rehydrate_plot now r c p w = (p', w')"
  shows "(growing now p \<and> p' = p\<lparr>growthTimeout := Some (nextHandle w)\<rparr>
            \<and> timers w' = timers w @ [(nextHandle w,
                 \<lparr>delay = GROWTH_TIME_MS - (now - the (lastWateredTime p)),
                  callback = ReestablishedGrowth r c\<rparr>)])
       \<or> (overdue now p \<and> p' = p\<lparr>state := ''ready''\<rparr> \<and> timers w' = timers w)
       \<or> (\<not> growing now p \<and> \<not> overdue now p \<and> p' = p \<and> timers w' = timers w)"
  using assms
  by (auto simp add: rehydrate_plot_def growing_def overdue_def Let_def setTimeout_def
      split: if_splits)

lemma rehydrate_plot_elsewhere:
  assumes "rehydrate_plot now r c p w = (p', w')" and "(r0, c0) \<noteq> (r, c)"
  shows "timers_for r0 c0 (timers w') = timers_for r0 c0 (timers w)"
  using rehydrate_plot_cases [OF assms(1)] assms(2)
  by (auto simp add: timers_for_def)

lemma rehydrate_row_elsewhere:
  "rehydrate_row clock r c ps w = (ps', w') \<Longrightarrow> r0 \<noteq> r \<or> c0 < c \<Longrightarrow>
     timers_for r0 c0 (timers w') = timers_for r0 c0 (timers w)"
proof (induction ps arbitrary: c w ps' w')
  case Nil
  then show ?case by simp
next
  case (Cons p ps)
  obtain p1 w1 where h: "rehydrate_plot (clock r c) r c p w = (p1, w1)"
    by (cases "rehydrate_plot (clock r c) r c p w")
  obtain ps2 w2 where t: "rehydrate_row clock r (c + 1) ps w1 = (ps2, w2)"
    by (cases "rehydrate_row clock r (c + 1) ps w1")
  from Cons.prems(1) h t have w': "w' = w2" by simp
  from Cons.prems(2) have "(r0, c0) \<noteq> (r, c)" and "r0 \<noteq> r \<or> c0 < c + 1" by auto
  with rehydrate_plot_elsewhere [OF h] Cons.IH [OF t] w' show ?case by simp
qed

lemma rehydrate_row_length:
  "rehydrate_row clock r c ps w = (ps', w') \<Longrightarrow> length ps' = length ps"
  by (induction ps arbitrary: c w ps' w') (auto split: prod.splits)

lemma rehydrate_row_at:
  "rehydrate_row clock r c ps w = (ps', w') \<Longrightarrow> i < length ps \<Longrightarrow>
     \<exists>wa wb. rehydrate_plot (clock r (c + int i)) r (c + int i) (ps ! i) wa = (ps' ! i, wb)
        \<and> timers_for r (c + int i) (timers wa) = timers_for r (c + int i) (timers w)
        \<and> timers_for r (c + int i) (timers w') = timers_for r (c + int i) (timers wb)"
proof (induction ps arbitrary: c w ps' w' i)
  case Nil
  then show ?case by simp
next
  case (Cons p ps)
  obtain p1 w1 where h: "rehydrate_plot (clock r c) r c p w = (p1, w1)"
    by (cases "rehydrate_plot (clock r c) r c p w")
  obtain ps2 w2 where t: "rehydrate_row clock r (c + 1) ps w1 = (ps2, w2)"
    by (cases "rehydrate_row clock r (c + 1) ps w1")
  from Cons.prems(1) h t have res: "ps' = p1 # ps2" "w' = w2" by simp_all
  show ?case
  proof (cases i)
    case 0
    have "timers_for r c (timers w2) = timers_for r c (timers w1)"
      using rehydrate_row_elsewhere [OF t, of r c] by simp
    with 0 h res show ?thesis by auto
  next
    case (Suc j)
    with Cons.prems(2) have j: "j < length ps" by simp
    from Cons.IH [OF t j] obtain wa wb where
      ab: "rehydrate_plot (clock r (c + 1 + int j)) r (c + 1 + int j) (ps ! j) wa = (ps2 ! j, wb)"
        "timers_for r (c + 1 + int j) (timers wa) = timers_for r (c + 1 + int j) (timers w1)"
        "timers_for r (c + 1 + int j) (timers w2) = timers_for r (c + 1 + int j) (timers wb)"
      by blast
    have "timers_for r (c + 1 + int j) (timers w1) = timers_for r (c + 1 + int j) (timers w)"
      using rehydrate_plot_elsewhere [OF h, of r "c + 1 + int j"] by simp
    with ab Suc res show ?thesis
      by (auto simp add: add.commute add.left_commute)
  qed
qed

lemma rehydrate_rows_elsewhere:
  "rehydrate_rows clock r rows w = (rows', w') \<Longrightarrow> r0 < r \<Longrightarrow>
     timers_for r0 c0 (timers w') = timers_for r0 c0 (timers w)"
proof (induction rows arbitrary: r w rows' w')
  case Nil
  then show ?case by simp
next
  case (Cons row rows)
  obtain row1 w1 where h: "rehydrate_row clock r 0 row w = (row1, w1)"
    by (cases "rehydrate_row clock r 0 row w")
  obtain rows2 w2 where t: "rehydrate_rows clock (r + 1) rows w1 = (rows2, w2)"
    by (cases "rehydrate_rows clock (r + 1) rows w1")
  from Cons.prems(1) h t have w': "w' = w2" by simp
  from Cons.prems(2) have "r0 \<noteq> r" and "r0 < r + 1" by auto
  with rehydrate_row_elsewhere [OF h, of r0 c0] Cons.IH [OF t] w' show ?case by simp
qed

lemma rehydrate_rows_length:
  "rehydrate_rows clock r rows w = (rows', w') \<Longrightarrow> length rows' = length rows"
  by (induction rows arbitrary: r w rows' w') (auto split: prod.splits)

lemma rehydrate_rows_at:
  "rehydrate_rows clock r rows w = (rows', w') \<Longrightarrow> k < length rows \<Longrightarrow> i < length (rows ! k) \<Longrightarrow>
     length (rows' ! k) = length (rows ! k) \<and>
     (\<exists>wa wb. rehydrate_plot (clock (r + int k) (int i)) (r + int k) (int i) (rows ! k ! i) wa = (rows' ! k ! i, wb)
        \<and> timers_for (r + int k) (int i) (timers wa) = timers_for (r + int k) (int i) (timers w)
        \<and> timers_for (r + int k) (int i) (timers w') = timers_for (r + int k) (int i) (timers wb))"
proof (induction rows arbitrary: r w rows' w' k)
  case Nil
  then show ?case by simp
next
  case (Cons row rows)
  obtain row1 w1 where h: "rehydrate_row clock r 0 row w = (row1, w1)"
    by (cases "rehydrate_row clock r 0 row w")
  obtain rows2 w2 where t: "rehydrate_rows clock (r + 1) rows w1 = (rows2, w2)"
    by (cases "rehydrate_rows clock (r + 1) rows w1")
  from Cons.prems(1) h t have res: "rows' = row1 # rows2" "w' = w2" by simp_all
  show ?case
  proof (cases k)
    case 0
    with Cons.prems(3) have i: "i < length row" by simp
    from rehydrate_row_at [OF h i] obtain wa wb where
      ab: "rehydrate_plot (clock r (int i)) r (int i) (row ! i) wa = (row1 ! i, wb)"
        "timers_for r (int i) (timers wa) = timers_for r (int i) (timers w)"
        "timers_for r (int i) (timers w1) = timers_for r (int i) (timers wb)"
      by auto
    have "timers_for r (int i) (timers w2) = timers_for r (int i) (timers w1)"
      using rehydrate_rows_elsewhere [OF t, of r "int i"] by simp
    with 0 ab res rehydrate_row_length [OF h] show ?thesis by auto
  next
    case (Suc j)
    with Cons.prems have j: "j < length rows" "i < length (rows ! j)" by simp_all
    from Cons.IH [OF t j] obtain wa wb where
      len: "length (rows2 ! j) = length (rows ! j)" and
      ab: "rehydrate_plot (clock (r + 1 + int j) (int i)) (r + 1 + int j) (int i) (rows ! j ! i) wa = (rows2 ! j ! i, wb)"
        "timers_for (r + 1 + int j) (int i) (timers wa) = timers_for (r + 1 + int j) (int i) (timers w1)"
        "timers_for (r + 1 + int j) (int i) (timers w2) = timers_for (r + 1 + int j) (int i) (timers wb)"
      by blast
    have "timers_for (r + 1 + int j) (int i) (timers w1) = timers_for (r + 1 + int j) (int i) (timers w)"
      using rehydrate_row_elsewhere [OF h, of "r + 1 + int j" "int i"] by simp
    with ab len Suc res show ?thesis
      by (auto simp add: add.commute add.left_commute)
  qed
qed

text \<open>What start-up does to one plot of a stored board.\<close>

lemma initialize_plot:
  fixes clock :: "int \<Rightarrow> int \<Rightarrow> int" and doc :: document
  assumes "k < length doc" and "i < length (doc ! k)"
  defines "w' \<equiv> initStorageAndLoadGameState clock (process_start (Some doc))"
    and "p \<equiv> parsed (doc ! k ! i)"
    and "now \<equiv> clock (int k) (int i)"
  shows "(growing now p \<and> (\<exists>h. plot_at (gameBoard w') (int k) (int i) = Some (p\<lparr>growthTimeout := Some h\<rparr>)
            \<and> timers_for (int k) (int i) (timers w') =
                [(h, \<lparr>delay = GROWTH_TIME_MS - (now - the (lastWateredTime p)),
                     callback = ReestablishedGrowth (int k) (int i)\<rparr>)]))
       \<or> (overdue now p \<and> plot_at (gameBoard w') (int k) (int i) = Some (p\<lparr>state := ''ready''\<rparr>)
            \<and> timers_for (int k) (int i) (timers w') = [])
       \<or> (\<not> growing now p \<and> \<not> overdue now p
            \<and> plot_at (gameBoard w') (int k) (int i) = Some p
            \<and> timers_for (int k) (int i) (timers w') = [])"
proof -
  define loaded where "loaded = map (map parsed) doc"
  define w0 where "w0 = (process_start (Some doc))\<lparr>gameBoard := loaded\<rparr>"
  obtain b w1 where rr: "rehydrate_rows clock 0 loaded w0 = (b, w1)"
    by (cases "rehydrate_rows clock 0 loaded w0")
  have w': "gameBoard w' = b" "timers w' = timers w1"
    using rr by (simp_all add: w'_def initStorageAndLoadGameState_def process_start_def
        loaded_def w0_def Let_def)
  have k: "k < length loaded" and i: "i < length (loaded ! k)" and lp: "loaded ! k ! i = p"
    using assms(1,2) by (simp_all add: loaded_def p_def)
  from rehydrate_rows_at [OF rr k i] obtain wa wb where
    len: "length (b ! k) = length (loaded ! k)" and
    ab: "rehydrate_plot now (int k) (int i) p wa = (b ! k ! i, wb)"
      "timers_for (int k) (int i) (timers wa) = timers_for (int k) (int i) (timers w0)"
      "timers_for (int k) (int i) (timers w1) = timers_for (int k) (int i) (timers wb)"
    by (auto simp add: lp now_def)
  have t0: "timers_for (int k) (int i) (timers w0) = []"
    by (simp add: w0_def process_start_def timers_for_def)
  have at: "plot_at b (int k) (int i) = Some (b ! k ! i)"
    using k i len rehydrate_rows_length [OF rr] by (simp add: plot_at_def)
  from rehydrate_plot_cases [OF ab(1)] ab(2,3) t0 at w' show ?thesis
    by (auto simp add: timers_for_def)
qed

lemma rehydrate_rows_row_length:
  "rehydrate_rows clock r rows w = (rows', w') \<Longrightarrow> j < length rows \<Longrightarrow>
     length (rows' ! j) = length (rows ! j)"
proof (induction rows arbitrary: r w rows' w' j)
  case Nil
  then show ?case by simp
next
  case (Cons row rows)
  obtain row1 w1 where h: "rehydrate_row clock r 0 row w = (row1, w1)"
    by (cases "rehydrate_row clock r 0 row w")
  obtain rows2 w2 where t: "rehydrate_rows clock (r + 1) rows w1 = (rows2, w2)"
    by (cases "rehydrate_rows clock (r + 1) rows w1")
  from Cons.prems(1) h t have res: "rows' = row1 # rows2" by simp
  show ?case
  proof (cases j)
    case 0
    with res rehydrate_row_length [OF h] show ?thesis by simp
  next
    case (Suc n)
    with Cons.prems(2) have "n < length rows" by simp
    from Cons.IH [OF t this] Suc res show ?thesis by simp
  qed
qed

lemma initialize_shape:
  fixes clock :: "int \<Rightarrow> int \<Rightarrow> int" and doc :: document
  defines "w' \<equiv> initStorageAndLoadGameState clock (process_start (Some doc))"
  shows "length (gameBoard w') = length doc"
    and "k < length doc \<Longrightarrow> length (gameBoard w' ! k) = length (doc ! k)"
proof -
  define loaded where "loaded = map (map parsed) doc"
  define w0 where "w0 = (process_start (Some doc))\<lparr>gameBoard := loaded\<rparr>"
  obtain b w1 where rr: "rehydrate_rows clock 0 loaded w0 = (b, w1)"
    by (cases "rehydrate_rows clock 0 loaded w0")
  have w': "gameBoard w' = b"
    using rr by (simp add: w'_def initStorageAndLoadGameState_def process_start_def
        loaded_def w0_def Let_def)
  show "length (gameBoard w') = length doc"
    using rehydrate_rows_length [OF rr] w' by (simp add: loaded_def)
  show "length (gameBoard w' ! k) = length (doc ! k)" if "k < length doc"
    using rehydrate_rows_row_length [OF rr, of k] w' that by (simp add: loaded_def)
qed

text \<open>A property of plots that start-up establishes plot by plot holds of the whole board.\<close>

lemma initialize_all_plots:
  fixes clock :: "int \<Rightarrow> int \<Rightarrow> int" and doc :: document
  assumes "\<And>k i h. k < length doc \<Longrightarrow> i < length (doc ! k) \<Longrightarrow>
      (growing (clock (int k) (int i)) (parsed (doc ! k ! i)) \<longrightarrow>
         Q ((parsed (doc ! k ! i))\<lparr>growthTimeout := Some h\<rparr>))
      \<and> (overdue (clock (int k) (int i)) (parsed (doc ! k ! i)) \<longrightarrow>
         Q ((parsed (doc ! k ! i))\<lparr>state := ''ready''\<rparr>))
      \<and> (\<not> growing (clock (int k) (int i)) (parsed (doc ! k ! i))
           \<and> \<not> overdue (clock (int k) (int i)) (parsed (doc ! k ! i)) \<longrightarrow>
         Q (parsed (doc ! k ! i)))"
  shows "all_plots Q (gameBoard (initStorageAndLoadGameState clock (process_start (Some doc))))"
proof -
  define w' where "w' = initStorageAndLoadGameState clock (process_start (Some doc))"
  have len: "length (gameBoard w') = length doc"
    and row_len: "\<And>k. k < length doc \<Longrightarrow> length (gameBoard w' ! k) = length (doc ! k)"
    unfolding w'_def by (rule initialize_shape)+
  have "Q (gameBoard w' ! k ! i)" if k: "k < length doc" and i: "i < length (doc ! k)" for k i
  proof -
    have at: "plot_at (gameBoard w') (int k) (int i) = Some (gameBoard w' ! k ! i)"
      using k i len row_len [OF k] by (simp add: plot_at_def)
    from initialize_plot [OF k i, of clock, folded w'_def] at assms [OF k i]
    show ?thesis by auto
  qed
  then show ?thesis
    using len row_len by (simp add: all_plots_def list_all_length w'_def)
qed

subsection \<open>The effect of a step on the board\<close>

lemma plant_effect:
  "gameBoard (snd (plant row col w)) = gameBoard w
   \<or> (\<exists>r c p p'. plot_at (gameBoard w) r c = Some p \<and> moved (Plant row col) w r c p p'
         \<and> gameBoard (snd (plant row col w)) = set_plot r c p' (gameBoard w))"
proof (cases "invalid_coordinates row col")
  case True
  then show ?thesis by (simp add: plant_def respond_def)
next
  case False
  then obtain r c where rc: "row = Some r" "col = Some c"
    by (cases row; cases col) auto
  show ?thesis
  proof (cases "plot_at (gameBoard w) r c")
    case None
    with False rc show ?thesis by (simp add: plant_def)
  next
    case (Some p)
    obtain s l g where p: "p = \<lparr>state = s, lastWateredTime = l, growthTimeout = g\<rparr>"
      by (cases p) simp
    show ?thesis
    proof (cases "s = ''empty''")
      case True
      with False rc Some p have
        "gameBoard (snd (plant row col w)) =
           set_plot r c \<lparr>state = ''planted'', lastWateredTime = None, growthTimeout = None\<rparr> (gameBoard w)"
        by (cases g) (simp_all add: plant_def respond_def saveGameBoard_def write_plot_def
            clearTimeout_def Let_def)
      with rc Some p True show ?thesis by auto
    next
      case no: False
      with False rc Some p show ?thesis by (simp add: plant_def respond_def)
    qed
  qed
qed

lemma water_effect:
  "gameBoard (snd (water now row col w)) = gameBoard w
   \<or> (\<exists>r c p p'. plot_at (gameBoard w) r c = Some p \<and> moved (Water now row col) w r c p p'
         \<and> gameBoard (snd (water now row col w)) = set_plot r c p' (gameBoard w))"
proof (cases "invalid_coordinates row col")
  case True
  then show ?thesis by (simp add: water_def respond_def)
next
  case False
  then obtain r c where rc: "row = Some r" "col = Some c"
    by (cases row; cases col) auto
  show ?thesis
  proof (cases "plot_at (gameBoard w) r c")
    case None
    with False rc show ?thesis by (simp add: water_def)
  next
    case (Some p)
    obtain s l g where p: "p = \<lparr>state = s, lastWateredTime = l, growthTimeout = g\<rparr>"
      by (cases p) simp
    show ?thesis
    proof (cases "s = ''planted''")
      case True
      with False rc Some p have
        "gameBoard (snd (water now row col w)) =
           set_plot r c \<lparr>state = ''watered'', lastWateredTime = Some now,
                         growthTimeout = Some (nextHandle w)\<rparr> (gameBoard w)"
        by (cases g) (simp_all add: water_def respond_def saveGameBoard_def write_plot_def
            clearTimeout_def setTimeout_def Let_def)
      with rc Some p True show ?thesis by auto
    next
      case no: False
      with False rc Some p show ?thesis by (simp add: water_def respond_def)
    qed
  qed
qed

lemma harvest_effect:
  "gameBoard (snd (harvest row col w)) = gameBoard w
   \<or> (\<exists>r c p p'. plot_at (gameBoard w) r c = Some p \<and> moved (Harvest row col) w r c p p'
         \<and> gameBoard (snd (harvest row col w)) = set_plot r c p' (gameBoard w))"
proof (cases "invalid_coordinates row col")
  case True
  then show ?thesis by (simp add: harvest_def respond_def)
next
  case False
  then obtain r c where rc: "row = Some r" "col = Some c"
    by (cases row; cases col) auto
  show ?thesis
  proof (cases "plot_at (gameBoard w) r c")
    case None
    with False rc show ?thesis by (simp add: harvest_def)
  next
    case (Some p)
    obtain s l g where p: "p = \<lparr>state = s, lastWateredTime = l, growthTimeout = g\<rparr>"
      by (cases p) simp
    show ?thesis
    proof (cases "s = ''ready''")
      case True
      with False rc Some p have
        "gameBoard (snd (harvest row col w)) =
           set_plot r c \<lparr>state = ''empty'', lastWateredTime = None, growthTimeout = None\<rparr> (gameBoard w)"
        by (cases g) (simp_all add: harvest_def respond_def saveGameBoard_def write_plot_def
            clearTimeout_def Let_def)
      with rc Some p True show ?thesis by auto
    next
      case no: False
      with False rc Some p show ?thesis by (simp add: harvest_def respond_def)
    qed
  qed
qed

lemma fire_effect:
  "gameBoard (snd (fire h w)) = gameBoard w
   \<or> (\<exists>r c p p'. plot_at (gameBoard w) r c = Some p \<and> moved (Fire h) w r c p p'
         \<and> gameBoard (snd (fire h w)) = set_plot r c p' (gameBoard w))"
proof (cases "map_of (timers w) h")
  case None
  then show ?thesis by (simp add: fire_def)
next
  case (Some t)
  obtain r c where rc: "target (callback t) = (r, c)"
    by (cases "target (callback t)")
  show ?thesis
  proof (cases "plot_at (gameBoard w) r c")
    case None
    with Some rc show ?thesis by (cases "callback t") (simp_all add: fire_def)
  next
    case p: (Some p)
    show ?thesis
    proof (cases "state p = ''watered''")
      case True
      with Some rc p show ?thesis
        by (cases "callback t")
           (auto simp add: fire_def saveGameBoard_def write_plot_def Let_def)
    next
      case False
      with Some rc p show ?thesis by (cases "callback t") (simp_all add: fire_def)
    qed
  qed
qed

lemma step_effect:
  "gameBoard (step a w) = gameBoard w
   \<or> (\<exists>r c p p'. plot_at (gameBoard w) r c = Some p \<and> moved a w r c p p'
         \<and> gameBoard (step a w) = set_plot r c p' (gameBoard w))"
proof (cases a)
  case (Plant row col)
  then show ?thesis using plant_effect [of row col w] by simp
next
  case (Water now row col)
  then show ?thesis using water_effect [of now row col w] by simp
next
  case (Harvest row col)
  then show ?thesis using harvest_effect [of row col w] by simp
next
  case (Fire h)
  then show ?thesis using fire_effect [of h w] by simp
next
  case GameState
  then show ?thesis by (simp add: game_state_def respond_def)
qed

subsection \<open>Invariants of a step\<close>

lemma moved_edge: "moved a w r c p p' \<Longrightarrow> edge a (state p) (state p')"
  by (cases a) (auto split: option.splits callback.splits)

lemma moved_state: "moved a w r c p p' \<Longrightarrow> state p' \<in> plot_states"
  by (cases a) (auto simp add: plot_states_def split: option.splits callback.splits)



lemma all_plots_at: "all_plots P b \<Longrightarrow> plot_at b r c = Some p \<Longrightarrow> P p"
  by (auto simp add: all_plots_def plot_at_def list_all_length split: if_splits)

lemma list_all_update: "list_all P xs \<Longrightarrow> P x \<Longrightarrow> list_all P (xs[i := x])"
  by (induction xs arbitrary: i) (auto split: nat.splits)

lemma list_all_nth: "list_all P xs \<Longrightarrow> i < length xs \<Longrightarrow> P (xs ! i)"
  by (simp add: list_all_length)

lemma all_plots_set_plot:
  assumes "all_plots P b" and "P p"
  shows "all_plots P (set_plot r c p b)"
proof (cases "nat r < length b")
  case True
  with assms(1) have "list_all P (b ! nat r)"
    unfolding all_plots_def by (rule list_all_nth)
  with assms(2) have "list_all P ((b ! nat r)[nat c := p])"
    by (simp add: list_all_update)
  with assms(1) show ?thesis
    by (simp add: all_plots_def set_plot_def list_all_update)
next
  case False
  with assms(1) show ?thesis by (simp add: set_plot_def list_update_beyond)
qed

lemma grid_set_plot:
  assumes "grid b"
  shows "grid (set_plot r c p b)"
proof (cases "nat r < length b")
  case True
  from assms have all: "list_all (\<lambda>row. length row = nat COLS) b"
    by (simp add: grid_def)
  from all True have "length (b ! nat r) = nat COLS"
    by (rule list_all_nth)
  then have "length ((b ! nat r)[nat c := p]) = nat COLS" by simp
  with all have "list_all (\<lambda>row. length row = nat COLS) (b[nat r := (b ! nat r)[nat c := p]])"
    by (simp add: list_all_update)
  with assms show ?thesis by (simp add: grid_def set_plot_def)
next
  case False
  with assms show ?thesis by (simp add: set_plot_def list_update_beyond)
qed

lemma grid_plot_at:
  "grid b \<Longrightarrow> 0 \<le> r \<Longrightarrow> r < ROWS \<Longrightarrow> 0 \<le> c \<Longrightarrow> c < COLS \<Longrightarrow> \<exists>p. plot_at b r c = Some p"
  by (auto simp add: grid_def plot_at_def list_all_length)

lemma step_all_plots:
  assumes "all_plots P (gameBoard w)"
    and "\<And>r c p p'. moved a w r c p p' \<Longrightarrow> P p \<Longrightarrow> P p'"
  shows "all_plots P (gameBoard (step a w))"
proof -
  from step_effect [of a w] consider "gameBoard (step a w) = gameBoard w"
    | r c p p' where "plot_at (gameBoard w) r c = Some p" "moved a w r c p p'"
        "gameBoard (step a w) = set_plot r c p' (gameBoard w)"
    by blast
  then show ?thesis
  proof cases
    case 1
    with assms(1) show ?thesis by simp
  next
    case 2
    from assms(1) 2(1) have "P p" by (rule all_plots_at)
    with 2(2) have "P p'" by (rule assms(2))
    with assms(1) 2(3) show ?thesis by (simp add: all_plots_set_plot)
  qed
qed

lemma step_grid: "grid (gameBoard w) \<Longrightarrow> grid (gameBoard (step a w))"
  using step_effect [of a w] by (auto intro: grid_set_plot)

lemma step_state:
  assumes "plot_at (gameBoard w) r c = Some p"
  shows "\<exists>p'. plot_at (gameBoard (step a w)) r c = Some p'
           \<and> (state p' = state p \<or> edge a (state p) (state p'))"
proof -
  from step_effect [of a w] consider "gameBoard (step a w) = gameBoard w"
    | r0 c0 q q' where "plot_at (gameBoard w) r0 c0 = Some q" "moved a w r0 c0 q q'"
        "gameBoard (step a w) = set_plot r0 c0 q' (gameBoard w)"
    by blast
  then show ?thesis
  proof cases
    case 1
    with assms show ?thesis by simp
  next
    case 2
    show ?thesis
    proof (cases "(r, c) = (r0, c0)")
      case True
      with 2 assms moved_edge [OF 2(2)] show ?thesis
        by (auto simp add: plot_at_set_plot_same)
    next
      case False
      with 2 assms show ?thesis
        by (simp add: plot_at_set_plot_other)
    qed
  qed
qed

lemma timers_for_empty_iff:
  "(timers_for r c ts = []) = (\<forall>kt \<in> set ts. target (callback (snd kt)) \<noteq> (r, c))"
  by (simp add: timers_for_def filter_empty_conv)

lemma run_callback_timers: "timers (snd (run_callback cb w)) = timers w"
  by (cases cb) (auto simp add: saveGameBoard_def write_plot_def Let_def split: option.splits)

lemma step_timers:
  assumes "(h, t) \<in> set (timers (step a w))"
  shows "(h, t) \<in> set (timers w)
       \<or> (\<exists>r c p. plot_at (gameBoard w) r c = Some p \<and> state p = ''planted''
             \<and> callback t = WateredGrowth r c)"
proof (cases a)
  case (Plant row col)
  with assms show ?thesis
    by (auto simp add: plant_def respond_def saveGameBoard_def write_plot_def clearTimeout_def
        unschedule_def Let_def split: if_splits option.splits)
next
  case (Water now row col)
  with assms show ?thesis
    by (auto simp add: water_def respond_def saveGameBoard_def write_plot_def clearTimeout_def
        setTimeout_def unschedule_def Let_def split: if_splits option.splits)
next
  case (Harvest row col)
  with assms show ?thesis
    by (auto simp add: harvest_def respond_def saveGameBoard_def write_plot_def clearTimeout_def
        unschedule_def Let_def split: if_splits option.splits)
next
  case (Fire k)
  with assms show ?thesis
    by (auto simp add: fire_def run_callback_timers unschedule_def split: option.splits)
next
  case GameState
  with assms show ?thesis by (simp add: game_state_def respond_def)
qed

lemma step_stuck:
  assumes "stuck r c w"
  shows "stuck r c (step a w)"
proof -
  from assms obtain p where p: "plot_at (gameBoard w) r c = Some p" "state p = ''watered''"
    and none: "\<forall>kt \<in> set (timers w). target (callback (snd kt)) \<noteq> (r, c)"
    by (auto simp add: stuck_def timers_for_empty_iff)
  have not_moved: "\<not> moved a w r c p p'" for p'
  proof (cases a)
    case (Fire h)
    show ?thesis
    proof (cases "map_of (timers w) h")
      case None
      with Fire show ?thesis by simp
    next
      case (Some t)
      then have "(h, t) \<in> set (timers w)" by (rule map_of_SomeD)
      with none have "target (callback t) \<noteq> (r, c)" by force
      with Fire Some show ?thesis by simp
    qed
  qed (use p in auto)
  have board: "plot_at (gameBoard (step a w)) r c = Some p"
  proof -
    from step_effect [of a w] consider "gameBoard (step a w) = gameBoard w"
      | r0 c0 q q' where "plot_at (gameBoard w) r0 c0 = Some q" "moved a w r0 c0 q q'"
          "gameBoard (step a w) = set_plot r0 c0 q' (gameBoard w)"
      by blast
    then show ?thesis
    proof cases
      case 1
      with p show ?thesis by simp
    next
      case 2
      with p not_moved have "(r, c) \<noteq> (r0, c0)" by auto
      with 2 p show ?thesis by (simp add: plot_at_set_plot_other)
    qed
  qed
  have "target (callback t) \<noteq> (r, c)" if "(h, t) \<in> set (timers (step a w))" for h t
    using step_timers [OF that] none p by force
  then have "timers_for r c (timers (step a w)) = []"
    by (auto simp add: timers_for_empty_iff)
  with board p show ?thesis by (simp add: stuck_def)
qed

lemma run_stuck: "stuck r c w \<Longrightarrow> stuck r c (run as w)"
  by (induction as arbitrary: w) (simp_all add: step_stuck)

lemma run_snoc: "run (as @ [a]) w = step a (run as w)"
  by (induction as arbitrary: w) simp_all

lemma run_take_Suc: "i < length as \<Longrightarrow> run (take (Suc i) as) w = step (as ! i) (run (take i as) w)"
  by (simp add: take_Suc_conv_app_nth run_snoc)

lemma run_grid: "grid (gameBoard w) \<Longrightarrow> grid (gameBoard (run as w))"
  by (induction as arbitrary: w) (simp_all add: step_grid)

subsection \<open>Timeout handles\<close>








subsection \<open>Start-up with a stored board\<close>



subsection \<open>Start-up without a stored board\<close>

text \<open>
  Claim C8. On start-up with no stored document the board is built fresh: \<open>ROWS\<close> rows of
  \<open>COLS\<close> plots, each \<^verbatim>\<open>'empty'\<close> with no watering time and no timeout; no timeout
  is pending; and the only effect performed is the write of that board to storage.
\<close>

theorem initialize_without_document:
  "initStorageAndLoadGameState clock (process_start None) =
     \<lparr>gameBoard = replicate (nat ROWS) (replicate (nat COLS)
          \<lparr>state = ''empty'', lastWateredTime = None, growthTimeout = None\<rparr>),
      stored = Some (replicate (nat ROWS) (replicate (nat COLS)
          \<lparr>json_state = ''empty'', json_lastWateredTime = None\<rparr>)),
      timers = [],
      nextHandle = 0,
      effects = [SetItem (replicate (nat ROWS) (replicate (nat COLS)
          \<lparr>json_state = ''empty'', json_lastWateredTime = None\<rparr>))]\<rparr>"
  by (simp add: initStorageAndLoadGameState_def process_start_def initializeNewGameBoard_def
      saveGameBoard_def new_plot_def strip_def map_replicate_const Let_def)

theorem initialize_without_document_witness:
  "length (gameBoard (initStorageAndLoadGameState (\<lambda>r c. 0) (process_start None))) = 4
   \<and> map length (gameBoard (initStorageAndLoadGameState (\<lambda>r c. 0) (process_start None))) = [5, 5, 5, 5]
   \<and> stored (initStorageAndLoadGameState (\<lambda>r c. 0) (process_start None))
        = Some (map (map strip) (gameBoard (initStorageAndLoadGameState (\<lambda>r c. 0) (process_start None))))"
  by (simp add: initialize_without_document [of "\<lambda>r c. 0"] ROWS_def COLS_def strip_def
      eval_nat_numeral)

subsection \<open>Watering\<close>



subsection \<open>Rejected calls\<close>

text \<open>
  Claim C5. A plant, water or harvest call with valid coordinates whose action is not
  legal for the plot's state is rejected: the response is 400 with the message of that
  action and state, and the world after differs from the world before in that response
  only, so the board, the pending timeouts and the stored document are the same and
  nothing is written. The pairs are those of the table: plant on planted, watered or
  ready; water on watered or ready, and on empty; harvest on empty, and on planted or
  watered.
\<close>

theorem invalid_transition_rejected:
  assumes "0 \<le> r" and "r < ROWS" and "0 \<le> c" and "c < COLS"
    and "plot_at (gameBoard w) r c = Some p"
  shows "(state p \<in> {''planted'', ''watered'', ''ready''} \<longrightarrow>
            rejected ''Plot is not empty.'' w (plant (Some r) (Some c) w))
       \<and> (state p \<in> {''watered'', ''ready''} \<longrightarrow>
            rejected ''Plant is already watered or ready.'' w (water now (Some r) (Some c) w))
       \<and> (state p = ''empty'' \<longrightarrow>
            rejected ''Nothing to water here. Plant a seed first!'' w
              (water now (Some r) (Some c) w))
       \<and> (state p = ''empty'' \<longrightarrow>
            rejected ''Nothing to harvest here. Plot is empty!'' w (harvest (Some r) (Some c) w))
       \<and> (state p \<in> {''planted'', ''watered''} \<longrightarrow>
            rejected ''Plant is not ready to harvest yet.'' w (harvest (Some r) (Some c) w))"
  using assms
  by (auto simp add: plant_def water_def harvest_def rejected_def respond_def)

theorem invalid_transition_rejected_witness:
  "rejected ''Plot is not empty.'' watered_game (plant (Some 0) (Some 0) watered_game)
   \<and> rejected ''Plant is already watered or ready.'' watered_game
        (water 2000 (Some 0) (Some 0) watered_game)
   \<and> rejected ''Plant is not ready to harvest yet.'' watered_game
        (harvest (Some 0) (Some 0) watered_game)
   \<and> rejected ''Nothing to water here. Plant a seed first!'' new_game
        (water 2000 (Some 0) (Some 0) new_game)
   \<and> rejected ''Nothing to harvest here. Plot is empty!'' new_game
        (harvest (Some 0) (Some 0) new_game)
   \<and> stored (snd (harvest (Some 0) (Some 0) watered_game)) = stored watered_game"
proof -
  have rc: "(0::int) \<le> 0" "(0::int) < ROWS" "(0::int) \<le> 0" "(0::int) < COLS"
    by (simp_all add: ROWS_def COLS_def)
  have a: "plot_at (gameBoard watered_game) 0 0
       = Some \<lparr>state = ''watered'', lastWateredTime = Some 1000, growthTimeout = Some 0\<rparr>"
    by code_simp
  have b: "plot_at (gameBoard new_game) 0 0
       = Some \<lparr>state = ''empty'', lastWateredTime = None, growthTimeout = None\<rparr>"
    by code_simp
  from invalid_transition_rejected [OF rc a, of 2000] invalid_transition_rejected [OF rc b, of 2000]
  show ?thesis by (simp add: rejected_def)
qed

subsection \<open>Validation of the coordinates\<close>



subsection \<open>The guard of the growth callbacks\<close>

text \<open>
  Claim C2. When a pending growth timeout fires, whether set by watering or
  re-established at start-up, its callback looks at the plot's state at that moment. If
  the plot is not \<^verbatim>\<open>'watered'\<close>, nothing happens: no error, the board, the stored
  document and the effects are as before, and only the fired timeout has left the
  pending ones. If the plot is \<^verbatim>\<open>'watered'\<close>, it becomes \<^verbatim>\<open>'ready'\<close> and the
  board is saved; the callback set by watering also resets the plot's handle.
\<close>

theorem growth_timer_guard:
  assumes "map_of (timers w) h = Some t" and "target (callback t) = (r, c)"
    and "plot_at (gameBoard w) r c = Some p"
  shows "(state p \<noteq> ''watered'' \<longrightarrow>
            fire h w = (Inr (), w\<lparr>timers := unschedule h (timers w)\<rparr>))
       \<and> (state p = ''watered'' \<longrightarrow>
            fire h w = (Inr (), saveGameBoard
              (write_plot r c
                 (case callback t of
                    WateredGrowth row col \<Rightarrow> p\<lparr>state := ''ready'', growthTimeout := None\<rparr>
                  | ReestablishedGrowth r' c' \<Rightarrow> p\<lparr>state := ''ready''\<rparr>)
                 (w\<lparr>timers := unschedule h (timers w)\<rparr>)))
            \<and> map_option state (plot_at (gameBoard (snd (fire h w))) r c) = Some ''ready'')"
proof (cases "callback t")
  case (WateredGrowth row col)
  with assms show ?thesis
    by (auto simp add: fire_def saveGameBoard_def write_plot_def Let_def plot_at_set_plot_same)
next
  case (ReestablishedGrowth r' c')
  with assms show ?thesis
    by (auto simp add: fire_def saveGameBoard_def write_plot_def Let_def plot_at_set_plot_same)
qed

theorem growth_timer_guard_witness:
  "fire 0 stale_timer_game = (Inr (), stale_timer_game\<lparr>timers := []\<rparr>)
   \<and> map_option state (plot_at (gameBoard (snd (fire 0 watered_game))) 0 0) = Some ''ready''
   \<and> map_option state (plot_at (gameBoard (snd (fire 0
         (initStorageAndLoadGameState (\<lambda>r c. 2000) (process_start (Some stored_watered)))))) 0 0)
       = Some ''ready''"
proof -
  have a: "map_of (timers stale_timer_game) 0 = Some \<lparr>delay = 5000, callback = WateredGrowth 0 0\<rparr>"
    "target (callback \<lparr>delay = 5000, callback = WateredGrowth 0 0\<rparr>) = (0, 0)"
    "plot_at (gameBoard stale_timer_game) 0 0
       = Some \<lparr>state = ''empty'', lastWateredTime = None, growthTimeout = None\<rparr>"
    by code_simp+
  have b: "map_of (timers watered_game) 0 = Some \<lparr>delay = 5000, callback = WateredGrowth 0 0\<rparr>"
    "target (callback \<lparr>delay = 5000, callback = WateredGrowth 0 0\<rparr>) = (0, 0)"
    "plot_at (gameBoard watered_game) 0 0
       = Some \<lparr>state = ''watered'', lastWateredTime = Some 1000, growthTimeout = Some 0\<rparr>"
    by code_simp+
  have c: "map_of (timers (initStorageAndLoadGameState (\<lambda>r c. 2000) (process_start (Some stored_watered)))) 0
       = Some \<lparr>delay = 4000, callback = ReestablishedGrowth 0 0\<rparr>"
    "target (callback \<lparr>delay = 4000, callback = ReestablishedGrowth 0 0\<rparr>) = (0, 0)"
    "plot_at (gameBoard (initStorageAndLoadGameState (\<lambda>r c. 2000) (process_start (Some stored_watered)))) 0 0
       = Some \<lparr>state = ''watered'', lastWateredTime = Some 1000, growthTimeout = Some 0\<rparr>"
    by code_simp+
  have u: "unschedule 0 (timers stale_timer_game) = []"
    by code_simp
  have empty: "state \<lparr>state = ''empty'', lastWateredTime = None, growthTimeout = None\<rparr>
      \<noteq> ''watered''"
    and watered: "state \<lparr>state = ''watered'', lastWateredTime = Some 1000, growthTimeout = Some 0\<rparr>
      = ''watered''"
    by simp_all
  from growth_timer_guard [OF a, THEN conjunct1, THEN mp, OF empty] u
  have "fire 0 stale_timer_game = (Inr (), stale_timer_game\<lparr>timers := []\<rparr>)"
    by simp
  with growth_timer_guard [OF b, THEN conjunct2, THEN mp, OF watered, THEN conjunct2]
    growth_timer_guard [OF c, THEN conjunct2, THEN mp, OF watered, THEN conjunct2]
  show ?thesis by blast
qed

subsection \<open>The lifecycle of a plot\<close>

lemma moved_in_plot_states: "moved a w r c p p' \<Longrightarrow> in_plot_states p \<Longrightarrow> in_plot_states p'"
  by (simp add: in_plot_states_def moved_state)

lemma run_all_plots:
  assumes "\<And>a w r c p p'. moved a w r c p p' \<Longrightarrow> P p \<Longrightarrow> P p'"
  shows "all_plots P (gameBoard w) \<Longrightarrow> all_plots P (gameBoard (run as w))"
proof (induction as arbitrary: w)
  case Nil
  then show ?case by simp
next
  case (Cons a as)
  from Cons.prems have "all_plots P (gameBoard (step a w))"
    by (rule step_all_plots) (rule assms)
  then show ?case using Cons.IH by simp
qed

text \<open>The board after start-up is such a board, new or loaded.\<close>

lemma new_board_lifecycle:
  "grid (gameBoard (initStorageAndLoadGameState clock (process_start None)))"
  "all_plots in_plot_states (gameBoard (initStorageAndLoadGameState clock (process_start None)))"
  by (simp_all add: initStorageAndLoadGameState_def process_start_def initializeNewGameBoard_def
      saveGameBoard_def new_plot_def Let_def grid_def all_plots_def list_all_iff
      in_plot_states_def plot_states_def)

lemma loaded_board_lifecycle:
  assumes "stored_grid doc"
  shows "grid (gameBoard (initStorageAndLoadGameState clock (process_start (Some doc))))"
    and "all_plots in_plot_states
           (gameBoard (initStorageAndLoadGameState clock (process_start (Some doc))))"
proof -
  from assms have rows: "length doc = nat ROWS"
    and cols: "\<And>k. k < length doc \<Longrightarrow> length (doc ! k) = nat COLS"
    and states: "\<And>k i. k < length doc \<Longrightarrow> i < length (doc ! k) \<Longrightarrow>
      json_state (doc ! k ! i) \<in> plot_states"
    by (simp_all add: stored_grid_def list_all_length)
  show "grid (gameBoard (initStorageAndLoadGameState clock (process_start (Some doc))))"
    using rows cols initialize_shape [where clock = clock and doc = doc]
    by (simp add: grid_def list_all_length)
  show "all_plots in_plot_states
           (gameBoard (initStorageAndLoadGameState clock (process_start (Some doc))))"
  proof (rule initialize_all_plots)
    fix k i and h :: nat
    assume "k < length doc" and "i < length (doc ! k)"
    then have "json_state (doc ! k ! i) \<in> plot_states" by (rule states)
    then show "(growing (clock (int k) (int i)) (parsed (doc ! k ! i)) \<longrightarrow>
         in_plot_states ((parsed (doc ! k ! i))\<lparr>growthTimeout := Some h\<rparr>))
      \<and> (overdue (clock (int k) (int i)) (parsed (doc ! k ! i)) \<longrightarrow>
         in_plot_states ((parsed (doc ! k ! i))\<lparr>state := ''ready''\<rparr>))
      \<and> (\<not> growing (clock (int k) (int i)) (parsed (doc ! k ! i))
           \<and> \<not> overdue (clock (int k) (int i)) (parsed (doc ! k ! i)) \<longrightarrow>
         in_plot_states (parsed (doc ! k ! i)))"
      by (simp add: in_plot_states_def parsed_def plot_states_def)
  qed
qed

text \<open>
  Claim C3. On a board of \<open>ROWS \<times> COLS\<close> plots whose states are among
  \<^verbatim>\<open>'empty'\<close>, \<^verbatim>\<open>'planted'\<close>, \<^verbatim>\<open>'watered'\<close>, \<^verbatim>\<open>'ready'\<close>, take any sequence of
  plant, water and harvest calls, queries and timeout firings, and any valid coordinate.
  Before and after each step of the sequence the plot there is in one of the four
  states, and the step either leaves its state as it is or moves it along the edge of
  that step: empty to planted by a plant call, planted to watered by a water call,
  watered to ready by a timeout firing, ready to empty by a harvest call.
\<close>

theorem plot_lifecycle:
  assumes "grid (gameBoard w)" and "all_plots in_plot_states (gameBoard w)"
    and "0 \<le> r" and "r < ROWS" and "0 \<le> c" and "c < COLS"
    and "i < length as"
  shows "\<exists>p p'. plot_at (gameBoard (run (take i as) w)) r c = Some p
           \<and> plot_at (gameBoard (run (take (Suc i) as) w)) r c = Some p'
           \<and> state p \<in> plot_states \<and> state p' \<in> plot_states
           \<and> (state p' = state p \<or> edge (as ! i) (state p) (state p'))"
proof -
  define w1 where "w1 = run (take i as) w"
  have next_world: "run (take (Suc i) as) w = step (as ! i) w1"
    using assms(7) by (simp add: w1_def run_take_Suc)
  have "grid (gameBoard w1)"
    unfolding w1_def using assms(1) by (rule run_grid)
  then obtain p where p: "plot_at (gameBoard w1) r c = Some p"
    using assms(3-6) grid_plot_at by blast
  have all1: "all_plots in_plot_states (gameBoard w1)"
    unfolding w1_def using moved_in_plot_states assms(2) by (rule run_all_plots)
  then have all2: "all_plots in_plot_states (gameBoard (step (as ! i) w1))"
    by (rule step_all_plots) (rule moved_in_plot_states)
  from step_state [OF p, of "as ! i"] obtain p' where
    p': "plot_at (gameBoard (step (as ! i) w1)) r c = Some p'"
      "state p' = state p \<or> edge (as ! i) (state p) (state p')"
    by blast
  from all2 p'(1) have "in_plot_states p'" by (rule all_plots_at)
  moreover from all1 p have "in_plot_states p" by (rule all_plots_at)
  ultimately show ?thesis
    using p p' next_world by (auto simp add: w1_def in_plot_states_def)
qed

theorem plot_lifecycle_witness:
  "(\<exists>p p'. plot_at (gameBoard (run (take 2 [Plant (Some 0) (Some 0), Water 1000 (Some 0) (Some 0),
               Fire 0, Harvest (Some 0) (Some 0)]) new_game)) 0 0 = Some p
      \<and> plot_at (gameBoard (run (take (Suc 2) [Plant (Some 0) (Some 0), Water 1000 (Some 0) (Some 0),
               Fire 0, Harvest (Some 0) (Some 0)]) new_game)) 0 0 = Some p'
      \<and> state p \<in> plot_states \<and> state p' \<in> plot_states
      \<and> (state p' = state p \<or> edge (Fire 0) (state p) (state p')))
   \<and> map_option state (plot_at (gameBoard (run [Plant (Some 0) (Some 0),
        Water 1000 (Some 0) (Some 0), Fire 0] new_game)) 0 0) = Some ''ready''"
proof -
  have h: "grid (gameBoard new_game)" "all_plots in_plot_states (gameBoard new_game)"
    "(0::int) \<le> 0" "(0::int) < ROWS" "(0::int) \<le> 0" "(0::int) < COLS"
    "2 < length [Plant (Some 0) (Some 0), Water 1000 (Some 0) (Some 0),
               Fire 0, Harvest (Some 0) (Some 0)]"
    by code_simp+
  have e: "map_option state (plot_at (gameBoard (run [Plant (Some 0) (Some 0),
        Water 1000 (Some 0) (Some 0), Fire 0] new_game)) 0 0) = Some ''ready''"
    by code_simp
  from plot_lifecycle [OF h] e show ?thesis by simp
qed

subsection \<open>The plot invariant\<close>






text \<open>
  The firing left open: the callback re-established at start-up turns the plot ready and
  leaves its handle in place, where the callback set by a water call resets it.
\<close>

lemma reestablished_firing_keeps_handle:
  "plot_at (gameBoard (step (Fire 0)
       (initStorageAndLoadGameState (\<lambda>r c. 2000) (process_start (Some stored_watered))))) 0 0
     = Some \<lparr>state = ''ready'', lastWateredTime = Some 1000, growthTimeout = Some 0\<rparr>"
  by code_simp

subsection \<open>A watered plot stored without a timestamp\<close>

text \<open>
  Claim C10. A plot stored as \<^verbatim>\<open>'watered'\<close> whose \<open>lastWateredTime\<close> is null (or 0,
  the other falsy number) is passed over at start-up: it is loaded as it is, watered and
  without a timeout handle, and no timeout is pending for it. After any sequence of
  calls and timeout firings it is still \<^verbatim>\<open>'watered'\<close>.
\<close>

theorem watered_without_timestamp_stays_watered:
  fixes clock :: "int \<Rightarrow> int \<Rightarrow> int" and doc :: document
  assumes "k < length doc" and "i < length (doc ! k)"
    and "json_state (doc ! k ! i) = ''watered''"
    and "\<not> truthy (json_lastWateredTime (doc ! k ! i))"
  defines "w0 \<equiv> initStorageAndLoadGameState clock (process_start (Some doc))"
  shows "plot_at (gameBoard w0) (int k) (int i)
           = Some \<lparr>state = ''watered'', lastWateredTime = json_lastWateredTime (doc ! k ! i),
                   growthTimeout = None\<rparr>
       \<and> timers_for (int k) (int i) (timers w0) = []
       \<and> map_option state (plot_at (gameBoard (run as w0)) (int k) (int i)) = Some ''watered''"
proof -
  define p where "p = parsed (doc ! k ! i)"
  have p: "p = \<lparr>state = ''watered'', lastWateredTime = json_lastWateredTime (doc ! k ! i),
                 growthTimeout = None\<rparr>"
    by (simp add: p_def parsed_def assms(3))
  have "\<not> growing now p" "\<not> overdue now p" for now
    using assms(4) by (simp_all add: growing_def overdue_def p)
  with initialize_plot [OF assms(1,2), of clock, folded w0_def p_def]
  have at: "plot_at (gameBoard w0) (int k) (int i) = Some p"
    and none: "timers_for (int k) (int i) (timers w0) = []"
    by auto
  then have "stuck (int k) (int i) w0" by (simp add: stuck_def p)
  then have "stuck (int k) (int i) (run as w0)" by (rule run_stuck)
  with at none show ?thesis by (simp add: stuck_def p)
qed

theorem watered_without_timestamp_stays_watered_witness:
  "plot_at (gameBoard (initStorageAndLoadGameState (\<lambda>r c. 9000) (process_start (Some stored_stuck)))) 0 0
      = Some \<lparr>state = ''watered'', lastWateredTime = None, growthTimeout = None\<rparr>
   \<and> timers (initStorageAndLoadGameState (\<lambda>r c. 9000) (process_start (Some stored_stuck))) = []
   \<and> map_option state (plot_at (gameBoard (run
        [Water 9001 (Some 0) (Some 1), Fire 0, Water 9002 (Some 0) (Some 0),
         Harvest (Some 0) (Some 0), Plant (Some 0) (Some 0), Fire 1, GameState]
        (initStorageAndLoadGameState (\<lambda>r c. 9000) (process_start (Some stored_stuck))))) 0 0)
      = Some ''watered''"
proof -
  have h: "0 < length stored_stuck" "0 < length (stored_stuck ! 0)"
    "json_state (stored_stuck ! 0 ! 0) = ''watered''"
    "\<not> truthy (json_lastWateredTime (stored_stuck ! 0 ! 0))"
    by (simp_all add: stored_stuck_def)
  have e: "json_lastWateredTime (stored_stuck ! 0 ! 0) = None"
    "timers (initStorageAndLoadGameState (\<lambda>r c. 9000) (process_start (Some stored_stuck))) = []"
    by code_simp+
  from watered_without_timestamp_stays_watered [OF h, of "\<lambda>r c. 9000"
      "[Water 9001 (Some 0) (Some 1), Fire 0, Water 9002 (Some 0) (Some 0),
         Harvest (Some 0) (Some 0), Plant (Some 0) (Some 0), Fire 1, GameState]"] e
  show ?thesis by simp
qed

subsection \<open>The board query\<close>

lemma agrees_append: "agrees h (h @ ext)"
  by (simp add: agrees_def)

lemma agreesE:
  assumes "agrees h h'"
  obtains ext where "h' = h @ ext"
proof
  from assms have "take (length h) h' @ drop (length h) h' = h @ drop (length h) h'"
    by (simp add: agrees_def)
  then show "h' = h @ drop (length h) h'" by simp
qed

lemma agrees_deref:
  assumes "agrees h h'" and "deref h a = Some x"
  shows "deref h' a = Some x"
proof -
  from assms(1) obtain ext where "h' = h @ ext" by (rule agreesE)
  with assms(2) show ?thesis
    by (simp add: deref_def nth_append split: if_splits)
qed

lemma agrees_read_plots:
  "agrees h h' \<Longrightarrow> read_plots h as = Some ps \<Longrightarrow> read_plots h' as = Some ps"
proof (induction as arbitrary: ps)
  case Nil
  then show ?case by simp
next
  case (Cons a as)
  from Cons.prems(2) obtain p rest where
    a: "deref h a = Some (PlotObject p)" and rest: "read_plots h as = Some rest" and
    ps: "ps = p # rest"
    by (auto split: option.splits object.splits)
  from agrees_deref [OF Cons.prems(1) a] Cons.IH [OF Cons.prems(1) rest] ps
  show ?case by simp
qed

lemma agrees_read_rows:
  "agrees h h' \<Longrightarrow> read_rows h as = Some b \<Longrightarrow> read_rows h' as = Some b"
proof (induction as arbitrary: b)
  case Nil
  then show ?case by simp
next
  case (Cons a as)
  from Cons.prems(2) obtain cells row rest where
    a: "deref h a = Some (ArrayObject cells)" and row: "read_plots h cells = Some row" and
    rest: "read_rows h as = Some rest" and b: "b = row # rest"
    by (auto split: option.splits object.splits)
  from agrees_deref [OF Cons.prems(1) a] agrees_read_plots [OF Cons.prems(1) row]
    Cons.IH [OF Cons.prems(1) rest] b
  show ?case by simp
qed

lemma agrees_board_at:
  assumes "agrees h h'" and "board_at h root = Some b"
  shows "board_at h' root = Some b"
proof -
  from assms(2) obtain rows where
    root: "deref h root = Some (ArrayObject rows)" and rows: "read_rows h rows = Some b"
    by (auto simp add: board_at_def split: option.splits object.splits)
  from agrees_deref [OF assms(1) root] agrees_read_rows [OF assms(1) rows]
  show ?thesis by (simp add: board_at_def)
qed

lemma agrees_trans:
  assumes "agrees h h1" and "agrees h1 h2"
  shows "agrees h h2"
proof -
  from assms(1) obtain e1 where "h1 = h @ e1" by (rule agreesE)
  moreover from assms(2) obtain e2 where "h2 = h1 @ e2" by (rule agreesE)
  ultimately have "h2 = h @ (e1 @ e2)" by simp
  then show ?thesis by (simp only: agrees_append)
qed

lemma agrees_allocate: "agrees h (snd (allocate x h))"
  by (simp add: agrees_def allocate_def)

lemma agrees_update: "length h \<le> a \<Longrightarrow> agrees h ((h @ ext)[a := x])"
  by (simp add: agrees_def)

lemma deref_allocate: "deref (snd (allocate x h)) (fst (allocate x h)) = Some x"
  by (simp add: deref_def allocate_def)

lemma list_all_mono_le:
  "list_all (\<lambda>a. m \<le> a) as \<Longrightarrow> n \<le> m \<Longrightarrow> list_all (\<lambda>a. (n::nat) \<le> a) as"
  by (induction as) auto

lemma agrees_length: "agrees h h' \<Longrightarrow> length h \<le> length h'"
  by (erule agreesE) simp

lemma map_plots_copies:
  "read_plots h as = Some ps \<Longrightarrow>
     \<exists>as' h'. map_plots as h = Some (as', h') \<and> agrees h h'
        \<and> read_plots h' as' = Some (map without_handle ps)
        \<and> list_all (\<lambda>a. length h \<le> a) as'"
proof (induction as arbitrary: h ps)
  case Nil
  then show ?case by (simp add: agrees_def)
next
  case (Cons a as)
  from Cons.prems obtain p rest where
    a: "deref h a = Some (PlotObject p)" and rest: "read_plots h as = Some rest" and
    ps: "ps = p # rest"
    by (auto split: option.splits object.splits)
  define a' where "a' = fst (allocate (PlotObject (without_handle p)) h)"
  define h1 where "h1 = snd (allocate (PlotObject (without_handle p)) h)"
  have a'_h: "a' = length h" by (simp add: a'_def allocate_def)
  have h_h1: "agrees h h1" unfolding h1_def by (rule agrees_allocate)
  have new: "deref h1 a' = Some (PlotObject (without_handle p))"
    unfolding h1_def a'_def by (rule deref_allocate)
  from agrees_read_plots [OF h_h1 rest] have "read_plots h1 as = Some rest" .
  from Cons.IH [OF this] obtain as' h2 where
    run: "map_plots as h1 = Some (as', h2)" and h1_h2: "agrees h1 h2" and
    copy: "read_plots h2 as' = Some (map without_handle rest)" and
    fresh: "list_all (\<lambda>a. length h1 \<le> a) as'"
    by blast
  have "map_plots (a # as) h = Some (a' # as', h2)"
    using a run by (simp add: a'_def h1_def case_prod_beta)
  moreover have "agrees h h2" using h_h1 h1_h2 by (rule agrees_trans)
  moreover have "read_plots h2 (a' # as') = Some (map without_handle ps)"
    using agrees_deref [OF h1_h2 new] copy ps by simp
  moreover have "list_all (\<lambda>a. length h \<le> a) (a' # as')"
    using list_all_mono_le [OF fresh agrees_length [OF h_h1]] a'_h by simp
  ultimately show ?case by blast
qed

lemma cells_of_agrees:
  "agrees h h' \<Longrightarrow> deref h a = Some (ArrayObject cells) \<Longrightarrow> cells_of h' a = cells"
  by (simp add: cells_of_def agrees_deref)

lemma map_rows_copies:
  "read_rows h as = Some b \<Longrightarrow>
     \<exists>as' h'. map_rows as h = Some (as', h') \<and> agrees h h'
        \<and> read_rows h' as' = Some (map (map without_handle) b)
        \<and> list_all (\<lambda>a. length h \<le> a) as'
        \<and> list_all (\<lambda>a. length h \<le> a) (concat (map (cells_of h') as'))"
proof (induction as arbitrary: h b)
  case Nil
  then show ?case by (simp add: agrees_def)
next
  case (Cons a as)
  from Cons.prems obtain cells row rest where
    a: "deref h a = Some (ArrayObject cells)" and row: "read_plots h cells = Some row" and
    rest: "read_rows h as = Some rest" and b: "b = row # rest"
    by (auto split: option.splits object.splits)
  from map_plots_copies [OF row] obtain cells' h1 where
    cells: "map_plots cells h = Some (cells', h1)" and h_h1: "agrees h h1" and
    copy_row: "read_plots h1 cells' = Some (map without_handle row)" and
    fresh_cells: "list_all (\<lambda>a. length h \<le> a) cells'"
    by blast
  define a' where "a' = fst (allocate (ArrayObject cells') h1)"
  define h2 where "h2 = snd (allocate (ArrayObject cells') h1)"
  have a'_h1: "a' = length h1" by (simp add: a'_def allocate_def)
  have h1_h2: "agrees h1 h2" unfolding h2_def by (rule agrees_allocate)
  have new: "deref h2 a' = Some (ArrayObject cells')"
    unfolding h2_def a'_def by (rule deref_allocate)
  have h_h2: "agrees h h2" using h_h1 h1_h2 by (rule agrees_trans)
  from agrees_read_rows [OF h_h2 rest] have "read_rows h2 as = Some rest" .
  from Cons.IH [OF this] obtain as' h3 where
    run: "map_rows as h2 = Some (as', h3)" and h2_h3: "agrees h2 h3" and
    copy: "read_rows h3 as' = Some (map (map without_handle) rest)" and
    fresh: "list_all (\<lambda>a. length h2 \<le> a) as'" and
    fresh_in: "list_all (\<lambda>a. length h2 \<le> a) (concat (map (cells_of h3) as'))"
    by blast
  have le: "length h \<le> length h1" "length h \<le> length h2"
    using agrees_length [OF h_h1] agrees_length [OF h_h2] by simp_all
  have "map_rows (a # as) h = Some (a' # as', h3)"
    using a cells run by (simp add: a'_def h2_def case_prod_beta)
  moreover have "agrees h h3" using h_h2 h2_h3 by (rule agrees_trans)
  moreover have "read_rows h3 (a' # as') = Some (map (map without_handle) b)"
    using agrees_deref [OF h2_h3 new] agrees_read_plots [OF agrees_trans [OF h1_h2 h2_h3] copy_row]
      copy b by simp
  moreover have "list_all (\<lambda>a. length h \<le> a) (a' # as')"
    using list_all_mono_le [OF fresh le(2)] a'_h1 le(1) by simp
  moreover have "list_all (\<lambda>a. length h \<le> a) (concat (map (cells_of h3) (a' # as')))"
    using cells_of_agrees [OF h2_h3 new] fresh_cells list_all_mono_le [OF fresh_in le(2)]
    by simp
  ultimately show ?case by blast
qed

lemma read_rows_cells_agree:
  "read_rows h as = Some b \<Longrightarrow> agrees h h' \<Longrightarrow>
     map (cells_of h') as = map (cells_of h) as"
proof (induction as arbitrary: b)
  case Nil
  then show ?case by simp
next
  case (Cons a as)
  from Cons.prems(1) obtain cells rest where
    a: "deref h a = Some (ArrayObject cells)" and rest: "read_rows h as = Some rest"
    by (auto split: option.splits object.splits)
  from cells_of_agrees [OF Cons.prems(2) a] cells_of_agrees [OF agrees_append [of h "[]"]] a
    Cons.IH [OF rest Cons.prems(2)]
  show ?case by simp
qed

lemma responseBoard_copies:
  assumes "board_at h root = Some b"
  shows "\<exists>snap h'. responseBoard root h = Some (snap, h') \<and> agrees h h'
          \<and> board_at h' snap = Some (map (map without_handle) b)
          \<and> list_all (\<lambda>a. length h \<le> a) (objects_of h' snap)"
proof -
  from assms obtain rows where
    root: "deref h root = Some (ArrayObject rows)" and rows: "read_rows h rows = Some b"
    by (auto simp add: board_at_def split: option.splits object.splits)
  from map_rows_copies [OF rows] obtain rows' h1 where
    run: "map_rows rows h = Some (rows', h1)" and h_h1: "agrees h h1" and
    copy: "read_rows h1 rows' = Some (map (map without_handle) b)" and
    fresh: "list_all (\<lambda>a. length h \<le> a) rows'" and
    fresh_in: "list_all (\<lambda>a. length h \<le> a) (concat (map (cells_of h1) rows'))"
    by blast
  define snap where "snap = fst (allocate (ArrayObject rows') h1)"
  define h2 where "h2 = snd (allocate (ArrayObject rows') h1)"
  have snap_h1: "snap = length h1" by (simp add: snap_def allocate_def)
  have h1_h2: "agrees h1 h2" unfolding h2_def by (rule agrees_allocate)
  have new: "deref h2 snap = Some (ArrayObject rows')"
    unfolding h2_def snap_def by (rule deref_allocate)
  have same_cells: "map (cells_of h2) rows' = map (cells_of h1) rows'"
    using copy h1_h2 by (rule read_rows_cells_agree)
  have "responseBoard root h = Some (snap, h2)"
    using root run by (simp add: responseBoard_def snap_def h2_def)
  moreover have "agrees h h2" using h_h1 h1_h2 by (rule agrees_trans)
  moreover have "board_at h2 snap = Some (map (map without_handle) b)"
    using new agrees_read_rows [OF h1_h2 copy] by (simp add: board_at_def)
  moreover have "list_all (\<lambda>a. length h \<le> a) (objects_of h2 snap)"
  proof -
    have "cells_of h2 snap = rows'" using new by (simp add: cells_of_def)
    then have "objects_of h2 snap = snap # rows' @ concat (map (cells_of h2) rows')"
      by (simp add: objects_of_def)
    then have "objects_of h2 snap = snap # rows' @ concat (map (cells_of h1) rows')"
      by (simp only: same_cells)
    with fresh fresh_in agrees_length [OF h_h1] show ?thesis by (simp add: snap_h1)
  qed
  ultimately show ?thesis by blast
qed

text \<open>
  Claim C9. The board query never fails: it answers with the JSON of the board, each
  plot with its state and watering time and without the timeout handle. It has no side
  effect: the world after differs from the world before in the response sent only, so
  board, pending timeouts and stored document are as they were. On the store, the
  response board is built from objects allocated by the query (every reference of the
  snapshot is new), the store it leaves extends the old one, the live board reads as
  before, the snapshot reads as the board with every handle removed, and overwriting any
  object the query allocated leaves the live board as it is.
\<close>

theorem game_state_snapshot:
  assumes "board_at h root = Some (gameBoard w)"
  shows "game_state w =
           (Inr (BoardJson (map (map strip) (gameBoard w))),
            w\<lparr>effects := effects w @ [Respond (BoardJson (map (map strip) (gameBoard w)))]\<rparr>)
       \<and> (\<exists>snap ext. responseBoard root h = Some (snap, h @ ext)
             \<and> board_at (h @ ext) root = Some (gameBoard w)
             \<and> board_at (h @ ext) snap = Some (map (map without_handle) (gameBoard w))
             \<and> list_all (\<lambda>a. length h \<le> a) (objects_of (h @ ext) snap)
             \<and> (\<forall>a x. length h \<le> a \<longrightarrow>
                    board_at ((h @ ext)[a := x]) root = Some (gameBoard w)))"
proof -
  have strip: "strip (without_handle p) = strip p" for p
    by (simp add: strip_def without_handle_def)
  have "game_state w =
           (Inr (BoardJson (map (map strip) (gameBoard w))),
            w\<lparr>effects := effects w @ [Respond (BoardJson (map (map strip) (gameBoard w)))]\<rparr>)"
    by (simp add: game_state_def respond_def Let_def comp_def strip)
  moreover from responseBoard_copies [OF assms] obtain snap h' where
    run: "responseBoard root h = Some (snap, h')" and agree: "agrees h h'" and
    copy: "board_at h' snap = Some (map (map without_handle) (gameBoard w))" and
    fresh: "list_all (\<lambda>a. length h \<le> a) (objects_of h' snap)"
    by blast
  from agree obtain ext where ext: "h' = h @ ext" by (rule agreesE)
  have "board_at ((h @ ext)[a := x]) root = Some (gameBoard w)" if "length h \<le> a" for a x
    using agrees_update [OF that] assms by (rule agrees_board_at)
  moreover have "board_at (h @ ext) root = Some (gameBoard w)"
    using agrees_append assms by (rule agrees_board_at)
  ultimately show ?thesis using run copy fresh ext by blast
qed

theorem game_state_snapshot_witness:
  "fst (game_state example_world) =
     Inr (BoardJson [[\<lparr>json_state = ''watered'', json_lastWateredTime = Some 1000\<rparr>,
                      \<lparr>json_state = ''empty'', json_lastWateredTime = None\<rparr>]])
   \<and> gameBoard (snd (game_state example_world)) = gameBoard example_world
   \<and> (\<exists>snap ext. responseBoard 3 example_heap = Some (snap, example_heap @ ext)
         \<and> board_at (example_heap @ ext) snap
               = Some [[\<lparr>state = ''watered'', lastWateredTime = Some 1000, growthTimeout = None\<rparr>,
                        \<lparr>state = ''empty'', lastWateredTime = None, growthTimeout = None\<rparr>]]
         \<and> board_at ((example_heap @ ext)[snap := ArrayObject []]) 3
               = Some (gameBoard example_world))"
proof -
  have h: "board_at example_heap 3 = Some (gameBoard example_world)"
    by code_simp
  have e: "map (map strip) (gameBoard example_world)
      = [[\<lparr>json_state = ''watered'', json_lastWateredTime = Some 1000\<rparr>,
          \<lparr>json_state = ''empty'', json_lastWateredTime = None\<rparr>]]"
    "map (map without_handle) (gameBoard example_world)
      = [[\<lparr>state = ''watered'', lastWateredTime = Some 1000, growthTimeout = None\<rparr>,
          \<lparr>state = ''empty'', lastWateredTime = None, growthTimeout = None\<rparr>]]"
    by code_simp+
  from game_state_snapshot [OF h] obtain snap ext where
    s: "game_state example_world =
           (Inr (BoardJson (map (map strip) (gameBoard example_world))),
            example_world\<lparr>effects := effects example_world
               @ [Respond (BoardJson (map (map strip) (gameBoard example_world)))]\<rparr>)"
      "responseBoard 3 example_heap = Some (snap, example_heap @ ext)"
      "board_at (example_heap @ ext) snap = Some (map (map without_handle) (gameBoard example_world))"
      "list_all (\<lambda>a. length example_heap \<le> a) (objects_of (example_heap @ ext) snap)"
      "\<forall>a x. length example_heap \<le> a \<longrightarrow>
          board_at ((example_heap @ ext)[a := x]) 3 = Some (gameBoard example_world)"
    by blast
  from s(4) have "length example_heap \<le> snap" by (simp add: objects_of_def)
  with s(5) have "board_at ((example_heap @ ext)[snap := ArrayObject []]) 3
      = Some (gameBoard example_world)" by blast
  with s(1,2,3) e show ?thesis by auto
qed

end
